theory Spec2Isabelle
  imports Complex_Main "HOL-Library.AList"
begin

text \<open>
  A model of the Visual Content Mapper: the storage utilities (analysis history,
  preferences, import), the JSON and CSV exports, the comparison of two analyses, the keyboard
  shortcut dispatcher, and the batch and competitor orchestrators of the analysis client.
  The first part embeds the code, function by function and under the names of the
  source; the second part states and proves its properties.
\<close>

section \<open>Values that cross the storage boundary\<close>

text \<open>
  The storage utilities (the second module of \<^verbatim>\<open>src/types.ts\<close>) keep every record
  family in the browser's local storage as the text written by \<^verbatim>\<open>JSON.stringify\<close> and
  read it back with \<^verbatim>\<open>JSON.parse\<close>; the JSON export writes its text the same way. The
  values that can be read back are the JSON values. Numbers are modelled as integers
  (time stamps, scores, counts). A property list stands for an object and is read by
  key; the order in which an engine enumerates the properties is not part of the model.
\<close>

datatype json =
    JNull
  | JBool bool
  | JNum int
  | JStr string
  | JArr "json list"
  | JObj "(string \<times> json) list"

text \<open>
  A text is only ever inspected through its truthiness (\<^verbatim>\<open>data ? ... : ...\<close>) and through
  \<^verbatim>\<open>JSON.parse\<close>, so a text is represented by what these two observe: the empty text
  (falsy, and a syntax error when parsed), a non-empty text that does not parse, and a
  text that parses to a value.
\<close>

datatype json_text = EmptyText | Unparsable | Parses json


subsection \<open>Values at run time and their serialization\<close>

text \<open>
  What the code hands to \<^verbatim>\<open>JSON.stringify\<close> is a value of the program, which need not be
  a JSON value: a property may hold \<^verbatim>\<open>undefined\<close>, and a number may be the negative
  zero, \<^verbatim>\<open>NaN\<close> or infinite. (Fractions are not modelled.)
\<close>

datatype js_number = Num int | NegZero | NaN | Infinity | NegInfinity

datatype js_value =
    VUndefined
  | VNull
  | VBool bool
  | VNum js_number
  | VStr string
  | VArr "js_value list"
  | VObj "(string \<times> js_value) list"

text \<open>
  The value a text written by \<^verbatim>\<open>JSON.stringify\<close> parses to: \<^verbatim>\<open>undefined\<close> has no
  serialization; the negative zero is written as \<^verbatim>\<open>0\<close> and a number that is not finite
  as \<^verbatim>\<open>null\<close>; an array element without serialization is written as \<^verbatim>\<open>null\<close>; a
  property without serialization is left out.
\<close>

fun to_json :: "js_value \<Rightarrow> json option" where
  "to_json VUndefined = None"
| "to_json VNull = Some JNull"
| "to_json (VBool b) = Some (JBool b)"
| "to_json (VNum n) = Some (case n of Num i \<Rightarrow> JNum i | NegZero \<Rightarrow> JNum 0 | _ \<Rightarrow> JNull)"
| "to_json (VStr s) = Some (JStr s)"
| "to_json (VArr xs) =
     Some (JArr (map (\<lambda>x. case to_json x of None \<Rightarrow> JNull | Some j \<Rightarrow> j) xs))"
| "to_json (VObj kvs) =
     Some (JObj (concat (map (\<lambda>kv. case to_json (snd kv) of
                                    None \<Rightarrow> []
                                  | Some j \<Rightarrow> [(fst kv, j)]) kvs)))"


text \<open>The value of the program that \<^verbatim>\<open>JSON.parse\<close> builds for a JSON value.\<close>

fun of_json :: "json \<Rightarrow> js_value" where
  "of_json JNull = VNull"
| "of_json (JBool b) = VBool b"
| "of_json (JNum i) = VNum (Num i)"
| "of_json (JStr s) = VStr s"
| "of_json (JArr xs) = VArr (map of_json xs)"
| "of_json (JObj kvs) = VObj (map (\<lambda>kv. (fst kv, of_json (snd kv))) kvs)"

text \<open>Decimal rendering of numbers, as template literals and \<^verbatim>\<open>toString()\<close> produce it.\<close>

definition digit_char :: "nat \<Rightarrow> char" where
  "digit_char d = ''0123456789'' ! d"

fun show_nat :: "nat \<Rightarrow> string" where
  "show_nat n = (if n < 10 then [digit_char n] else show_nat (n div 10) @ [digit_char (n mod 10)])"

declare show_nat.simps [simp del]

definition show_int :: "int \<Rightarrow> string" where
  "show_int i = (if i < 0 then CHR ''-'' # show_nat (nat (- i)) else show_nat (nat i))"

subsection \<open>Truthiness and property access\<close>

definition truthy :: "json \<Rightarrow> bool" where
  "truthy v = (case v of
      JNull \<Rightarrow> False
    | JBool b \<Rightarrow> b
    | JNum n \<Rightarrow> n \<noteq> 0
    | JStr s \<Rightarrow> s \<noteq> []
    | JArr _ \<Rightarrow> True
    | JObj _ \<Rightarrow> True)"

text \<open>
  \<^verbatim>\<open>data.name\<close> for one of the names the code reads (\<^verbatim>\<open>history\<close>, \<^verbatim>\<open>brandVoice\<close>,
  \<^verbatim>\<open>preferences\<close>, \<^verbatim>\<open>insights\<close>): a type error on \<^verbatim>\<open>null\<close> (outer \<open>None\<close>),
  \<^verbatim>\<open>undefined\<close> (inner \<open>None\<close>) on a missing property and on arrays, strings, numbers
  and booleans, none of which carries a property of these names.
\<close>

definition get_prop :: "json \<Rightarrow> string \<Rightarrow> json option option" where
  "get_prop v name = (case v of
      JNull \<Rightarrow> None
    | JObj kvs \<Rightarrow> Some (map_of kvs name)
    | _ \<Rightarrow> Some None)"

section \<open>Local storage\<close>







subsection \<open>Analysis history\<close>







text \<open>The record of a call as it is read back from the history.\<close>

definition stored_form :: "js_value \<Rightarrow> json" where
  "stored_form v = (case to_json v of None \<Rightarrow> JNull | Some j \<Rightarrow> j)"





subsection \<open>User preferences\<close>









subsection \<open>Import of an exported snapshot\<close>



subsection \<open>JSON export\<close>














section \<open>Analysis results\<close>

text \<open>
  The result types of the type module, with the fields every result and every section
  has; the optional fields, which none of the functions below reads, are left out.
  Scores and counts are modelled as integers. The fields \<^verbatim>\<open>id\<close>, \<^verbatim>\<open>type\<close> and
  \<^verbatim>\<open>keywords\<close> of a section are named \<open>section_id\<close>, \<open>section_type\<close> and
  \<open>section_keywords\<close>; the four coordinates of a position carry the prefix \<open>pos\<close>.
\<close>

datatype SectionType =
  hero | subheading | features | cta_button | body_text | footer | navigation
  | testimonial | pricing | form

record position =
  pos_x :: int
  pos_y :: int
  pos_width :: int
  pos_height :: int

record DetectedSection =
  section_id :: string
  section_type :: SectionType
  label :: string
  position :: position
  currentContent :: "string option"
  suggestedContent :: string
  seoScore :: int
  section_keywords :: "string list"
  characterCount :: int

record AnalysisResult =
  sections :: "DetectedSection list"
  overallSeoScore :: int
  recommendations :: "string list"
  pageType :: string
  imageUrl :: string

subsection \<open>Comparing two analyses\<close>

text \<open>
  A \<^verbatim>\<open>Map\<close> keeps its entries in the order in which their keys were first set;
  setting a key that is present replaces the value where it stands. \<^verbatim>\<open>new Map(entries)\<close>
  sets the entries one after the other, \<^verbatim>\<open>forEach\<close> visits them in order.
\<close>

type_synonym ('k, 'v) js_map = "('k \<times> 'v) list"

definition map_set :: "'k \<Rightarrow> 'v \<Rightarrow> ('k, 'v) js_map \<Rightarrow> ('k, 'v) js_map" where
  "map_set k v m = AList.update k v m"

definition new_Map :: "('k \<times> 'v) list \<Rightarrow> ('k, 'v) js_map" where
  "new_Map entries = fold (\<lambda>(k, v). map_set k v) entries []"

definition map_has :: "('k, 'v) js_map \<Rightarrow> 'k \<Rightarrow> bool" where
  "map_has m k = (map_of m k \<noteq> None)"

definition map_get :: "('k, 'v) js_map \<Rightarrow> 'k \<Rightarrow> 'v option" where
  "map_get m k = map_of m k"

definition forEach :: "('k, 'v) js_map \<Rightarrow> ('v \<Rightarrow> 'k \<Rightarrow> 's \<Rightarrow> 's) \<Rightarrow> 's \<Rightarrow> 's" where
  "forEach m f s = fold (\<lambda>(k, v). f v k) m s"

record comparison =
  seoScoreDelta :: int
  sectionsAdded :: "string list"
  sectionsRemoved :: "string list"
  sectionsImproved :: "string list"
  sectionsDeclined :: "string list"
  overallImprovement :: bool

text \<open>The three arrays the second \<^verbatim>\<open>forEach\<close> pushes to.\<close>

record change_lists =
  removed :: "string list"
  improved :: "string list"
  declined :: "string list"

definition compareAnalyses :: "AnalysisResult \<Rightarrow> AnalysisResult \<Rightarrow> comparison" where
  "compareAnalyses analysis1 analysis2 =
     (let delta = overallSeoScore analysis2 - overallSeoScore analysis1;
          sections1 = new_Map (map (\<lambda>s. (section_id s, s)) (sections analysis1));
          sections2 = new_Map (map (\<lambda>s. (section_id s, s)) (sections analysis2));
          added = forEach sections2
            (\<lambda>section id acc. if \<not> map_has sections1 id then acc @ [label section] else acc) [];
          changes = forEach sections1
            (\<lambda>section1 id acc.
               case map_get sections2 id of
                 None \<Rightarrow> acc\<lparr>removed := removed acc @ [label section1]\<rparr>
               | Some section2 \<Rightarrow>
                   if seoScore section2 > seoScore section1
                   then acc\<lparr>improved := improved acc @ [label section2]\<rparr>
                   else if seoScore section2 < seoScore section1
                   then acc\<lparr>declined := declined acc @ [label section2]\<rparr>
                   else acc)
            \<lparr>removed = [], improved = [], declined = []\<rparr>
      in \<lparr>seoScoreDelta = delta,
          sectionsAdded = added,
          sectionsRemoved = removed changes,
          sectionsImproved = improved changes,
          sectionsDeclined = declined changes,
          overallImprovement = (delta > 0)\<rparr>)"

text \<open>
  The vocabulary of the comparison, by id: the ids of a section list in the order in
  which they first occur, whether a list has a section of a given id, and the section a
  list has for an id (the last one of that id, should the list repeat it; the only one
  when the ids of the list are distinct).
\<close>

definition ids_in_order :: "DetectedSection list \<Rightarrow> string list" where
  "ids_in_order ss = rev (remdups (rev (map section_id ss)))"

definition has_id :: "DetectedSection list \<Rightarrow> string \<Rightarrow> bool" where
  "has_id ss i = (i \<in> set (map section_id ss))"

definition section_with_id :: "DetectedSection list \<Rightarrow> string \<Rightarrow> DetectedSection" where
  "section_with_id ss i = last (filter (\<lambda>s. section_id s = i) ss)"

text \<open>
  Two results that share the sections \<open>A\<close> and \<open>B\<close>: the score of \<open>A\<close> rises from 50 to 70,
  that of \<open>B\<close> falls from 80 to 60; \<open>C\<close> is only in the first, \<open>D\<close> only in the second, and
  \<open>E\<close> keeps its score.
\<close>

definition section_of :: "string \<Rightarrow> string \<Rightarrow> int \<Rightarrow> DetectedSection" where
  "section_of i l score =
     \<lparr>section_id = i, section_type = body_text, label = l,
      position = \<lparr>pos_x = 0, pos_y = 0, pos_width = 100, pos_height = 10\<rparr>,
      currentContent = None, suggestedContent = ''text'', seoScore = score,
      section_keywords = [], characterCount = 4\<rparr>"

definition result_of :: "DetectedSection list \<Rightarrow> int \<Rightarrow> AnalysisResult" where
  "result_of ss score =
     \<lparr>sections = ss, overallSeoScore = score, recommendations = [], pageType = ''landing'',
      imageUrl = ''blob:1''\<rparr>"

definition before_result :: AnalysisResult where
  "before_result = result_of
     [section_of ''A'' ''Hero'' 50, section_of ''B'' ''Signup'' 80, section_of ''C'' ''Old banner'' 40,
      section_of ''E'' ''Footer'' 30] 60"

definition after_result :: AnalysisResult where
  "after_result = result_of
     [section_of ''A'' ''Hero'' 70, section_of ''B'' ''Signup'' 60, section_of ''D'' ''New banner'' 55,
      section_of ''E'' ''Footer'' 30] 65"

section \<open>CSV export\<close>

text \<open>
  \<^verbatim>\<open>Array.prototype.join\<close> and \<^verbatim>\<open>String.prototype.replace\<close> with a global pattern of one
  character. A section type is the string of its name.
\<close>

fun join :: "string \<Rightarrow> string list \<Rightarrow> string" where
  "join sep [] = []"
| "join sep [x] = x"
| "join sep (x # y # ys) = x @ sep @ join sep (y # ys)"

definition replace_all :: "char \<Rightarrow> string \<Rightarrow> string \<Rightarrow> string" where
  "replace_all c r s = concat (map (\<lambda>ch. if ch = c then r else [ch]) s)"

definition dquote :: char where
  "dquote = CHR 0x22"

definition newline :: char where
  "newline = CHR 0x0A"

fun type_name :: "SectionType \<Rightarrow> string" where
  "type_name hero = ''hero''"
| "type_name subheading = ''subheading''"
| "type_name features = ''features''"
| "type_name cta_button = ''cta_button''"
| "type_name body_text = ''body_text''"
| "type_name footer = ''footer''"
| "type_name navigation = ''navigation''"
| "type_name testimonial = ''testimonial''"
| "type_name pricing = ''pricing''"
| "type_name form = ''form''"

definition exportToCSV :: "AnalysisResult \<Rightarrow> string" where
  "exportToCSV analysis =
     (let headers = [''Section'', ''Type'', ''SEO Score'', ''Keywords'', ''Character Count'', ''Content''];
          rows = map (\<lambda>section.
              [label section,
               type_name (section_type section),
               show_int (seoScore section),
               join ''; '' (section_keywords section),
               show_int (characterCount section),
               [dquote] @ replace_all dquote [dquote, dquote] (suggestedContent section) @ [dquote]])
            (sections analysis)
      in join [newline] (join '','' headers # map (\<lambda>row. join '','' row) rows))"

text \<open>
  The export as the specification words it: a header row, then one row per section with
  the label, the type, the score, the keywords joined by \<^verbatim>\<open>;\<close>, the character count and
  the suggested content in double quotes with every double quote in it doubled.
\<close>

definition csv_quoted :: "string \<Rightarrow> string" where
  "csv_quoted content = dquote # concat (map (\<lambda>ch. if ch = dquote then [dquote, dquote] else [ch]) content) @ [dquote]"

definition csv_header :: string where
  "csv_header = ''Section,Type,SEO Score,Keywords,Character Count,Content''"

definition csv_row_with :: "string \<Rightarrow> DetectedSection \<Rightarrow> string" where
  "csv_row_with keyword_separator s =
     label s @ '','' @ type_name (section_type s) @ '','' @ show_int (seoScore s) @ '',''
       @ join keyword_separator (section_keywords s) @ '','' @ show_int (characterCount s) @ '',''
       @ csv_quoted (suggestedContent s)"

definition csv_as_specified :: "AnalysisResult \<Rightarrow> string" where
  "csv_as_specified analysis =
     join [newline] (csv_header # map (csv_row_with '';'') (sections analysis))"

text \<open>
  Reading a quoted field back: the wrapping quotes are removed and every pair of quotes
  stands for one; a quote on its own inside the field is an error.
\<close>

fun undouble :: "string \<Rightarrow> string option" where
  "undouble [] = Some []"
| "undouble [c] = (if c = dquote then None else Some [c])"
| "undouble (c # d # cs) =
     (if c = dquote
      then (if d = dquote then map_option (Cons dquote) (undouble cs) else None)
      else map_option (Cons c) (undouble (d # cs)))"

definition csv_unquote :: "string \<Rightarrow> string option" where
  "csv_unquote field = (case field of
      [] \<Rightarrow> None
    | q # rest \<Rightarrow>
        if q = dquote \<and> rest \<noteq> [] \<and> last rest = dquote then undouble (butlast rest) else None)"

text \<open>A result with one section of two keywords and a quotation in its content.\<close>

definition csv_example :: AnalysisResult where
  "csv_example =
     \<lparr>sections =
        [\<lparr>section_id = ''s1'', section_type = hero, label = ''Hero'',
          position = \<lparr>pos_x = 0, pos_y = 0, pos_width = 100, pos_height = 40\<rparr>,
          currentContent = None,
          suggestedContent = [CHR ''G'', CHR ''o'', CHR '' '', dquote, CHR ''u'', CHR ''p'', dquote],
          seoScore = 70, section_keywords = [''seo'', ''web''], characterCount = 7\<rparr>],
      overallSeoScore = 70, recommendations = [], pageType = ''landing'', imageUrl = ''blob:1''\<rparr>"

section \<open>Keyboard shortcuts\<close>

text \<open>
  The shortcut table and the key event of \<^verbatim>\<open>src/utils/keyboardShortcuts.ts\<close>. The optional
  modifier flags of an entry are options; an entry's action is a value that names the
  callback. The fields \<^verbatim>\<open>key\<close> of an entry and of an event are named \<open>shortcut_key\<close>
  and \<open>event_key\<close>. Of the event's target, the handler reads the tag name and whether it
  is content-editable.
\<close>

datatype shortcut_category = cat_general | cat_navigation | cat_editing | cat_export

record 'a KeyboardShortcut =
  shortcut_key :: string
  ctrl :: "bool option"
  alt :: "bool option"
  shift :: "bool option"
  meta :: "bool option"
  action :: 'a
  description :: string
  category :: shortcut_category

record element =
  tagName :: string
  isContentEditable :: bool

record KeyboardEvent =
  event_key :: string
  ctrlKey :: bool
  metaKey :: bool
  altKey :: bool
  shiftKey :: bool
  target :: element

text \<open>Truthiness of an optional flag: \<^verbatim>\<open>undefined\<close> and \<^verbatim>\<open>false\<close> are falsy.\<close>

definition flag :: "bool option \<Rightarrow> bool" where
  "flag f = (case f of None \<Rightarrow> False | Some b \<Rightarrow> b)"

text \<open>\<^verbatim>\<open>toLowerCase\<close>, on the letters of ASCII.\<close>

definition lower_char :: "char \<Rightarrow> char" where
  "lower_char c =
     (case map_of (zip ''ABCDEFGHIJKLMNOPQRSTUVWXYZ'' ''abcdefghijklmnopqrstuvwxyz'') c of
        Some l \<Rightarrow> l
      | None \<Rightarrow> c)"

definition toLowerCase :: "string \<Rightarrow> string" where
  "toLowerCase s = map lower_char s"

text \<open>What the handler does to the outside: it cancels the default action and calls an action.\<close>

datatype 'a effect = PreventDefault | Invoke 'a

text \<open>The loop over the shortcuts, left at the first match by \<^verbatim>\<open>break\<close>.\<close>

fun scan_shortcuts :: "'a KeyboardShortcut list \<Rightarrow> KeyboardEvent \<Rightarrow> 'a effect list" where
  "scan_shortcuts [] event = []"
| "scan_shortcuts (shortcut # rest) event =
     (let keyMatch = (toLowerCase (event_key event) = toLowerCase (shortcut_key shortcut));
          ctrlMatch = (if flag (ctrl shortcut) then ctrlKey event \<or> metaKey event
                       else \<not> ctrlKey event \<and> \<not> metaKey event);
          altMatch = (if flag (alt shortcut) then altKey event else \<not> altKey event);
          shiftMatch = (if flag (shift shortcut) then shiftKey event else \<not> shiftKey event)
      in if keyMatch \<and> ctrlMatch \<and> altMatch \<and> shiftMatch
         then [PreventDefault, Invoke (action shortcut)]
         else scan_shortcuts rest event)"

definition handleKeyDown :: "'a KeyboardShortcut list \<Rightarrow> bool \<Rightarrow> KeyboardEvent \<Rightarrow> 'a effect list" where
  "handleKeyDown shortcuts enabled event =
     (if \<not> enabled then []
      else if tagName (target event) = ''INPUT'' \<or> tagName (target event) = ''TEXTAREA''
              \<or> isContentEditable (target event)
      then []
      else scan_shortcuts shortcuts event)"

text \<open>
  The vocabulary of the properties. A text-entry control is an input, a textarea or a
  content-editable element. The dispatcher as specified finds the first entry that
  matches and invokes it, and nothing else. A chord matches exactly when the keys are
  equal up to case and every modifier flag of the entry agrees with the event's. It
  matches in the dispatcher's sense when the keys are equal up to case, the entry's
  control flag agrees with the event having control or meta down, and the alt and shift
  flags agree with the event's.
\<close>

definition text_entry_control :: "element \<Rightarrow> bool" where
  "text_entry_control el =
     (tagName el = ''INPUT'' \<or> tagName el = ''TEXTAREA'' \<or> isContentEditable el)"

definition invoke_first :: "('a KeyboardShortcut \<Rightarrow> bool) \<Rightarrow> 'a KeyboardShortcut list \<Rightarrow> 'a effect list" where
  "invoke_first matches shortcuts = (case find matches shortcuts of
      None \<Rightarrow> []
    | Some s \<Rightarrow> [PreventDefault, Invoke (action s)])"

definition exact_match :: "KeyboardEvent \<Rightarrow> 'a KeyboardShortcut \<Rightarrow> bool" where
  "exact_match event s =
     (toLowerCase (event_key event) = toLowerCase (shortcut_key s)
      \<and> flag (ctrl s) = ctrlKey event
      \<and> flag (alt s) = altKey event
      \<and> flag (shift s) = shiftKey event
      \<and> flag (meta s) = metaKey event)"

definition chord_match :: "KeyboardEvent \<Rightarrow> 'a KeyboardShortcut \<Rightarrow> bool" where
  "chord_match event s =
     (toLowerCase (event_key event) = toLowerCase (shortcut_key s)
      \<and> flag (ctrl s) = (ctrlKey event \<or> metaKey event)
      \<and> flag (alt s) = altKey event
      \<and> flag (shift s) = shiftKey event)"

text \<open>
  Two entries of the default table (search on control and K, previous section on plain
  K), and events on the page body and in an input field.
\<close>

definition search_shortcut :: "string KeyboardShortcut" where
  "search_shortcut = \<lparr>shortcut_key = ''k'', ctrl = Some True, alt = None, shift = None, meta = None,
     action = ''search'', description = ''Search / Command palette'', category = cat_general\<rparr>"

definition prevSection_shortcut :: "string KeyboardShortcut" where
  "prevSection_shortcut = \<lparr>shortcut_key = ''k'', ctrl = Some False, alt = None, shift = None, meta = None,
     action = ''prevSection'', description = ''Previous section'', category = cat_navigation\<rparr>"

definition key_event :: "string \<Rightarrow> bool \<Rightarrow> bool \<Rightarrow> string \<Rightarrow> KeyboardEvent" where
  "key_event k c m tag = \<lparr>event_key = k, ctrlKey = c, metaKey = m, altKey = False, shiftKey = False,
     target = \<lparr>tagName = tag, isContentEditable = False\<rparr>\<rparr>"

section \<open>Orchestrators of the analysis client\<close>

text \<open>
  The batch and the competitor orchestrators call the analysis client
  \<^verbatim>\<open>actionAnalyzeScreenshotEnhanced\<close>, and the second also the text model, one call after
  the other (every call is awaited before the next statement runs). Both clients are
  parameters here: a client takes its request and the state of the world outside and
  returns a result or a failure, and the next state of the world. Everything the
  orchestrators do to the outside is recorded in order: the calls of the progress
  callback, the calls of the two clients, and the lines written to the error console.
\<close>

datatype ToneType = professional | casual | friendly | authoritative | playful | empathetic

datatype SentenceStructure = simple_sentences | complex_sentences | mixed_sentences

record BrandVoiceProfile =
  tone :: ToneType
  vocabulary :: "string list"
  sentenceStructure :: SentenceStructure
  formalityLevel :: int
  targetReadingLevel :: int
  avoidWords :: "string list"

record File =
  file_name :: string
  file_content :: string

text \<open>The argument of the analysis client; its fields carry the prefix \<open>req\<close>.\<close>

record analysis_request =
  req_imageFile :: File
  req_websiteUrl :: string
  req_keywords :: "string list"
  req_targetAudience :: string
  req_brandVoice :: "BrandVoiceProfile option"
  req_generateVariants :: bool

datatype error = Error string

text \<open>
  What the prompt of the insight synthesis interpolates into its fixed text: the score,
  the section types and the keywords of one's own page, and the score and the section
  types of every competitor.
\<close>

record insight_prompt =
  your_score :: int
  your_section_types :: "SectionType list"
  your_keywords :: "string list"
  competitor_summaries :: "(int \<times> SectionType list) list"

type_synonym 'w analysis_client = "analysis_request \<Rightarrow> 'w \<Rightarrow> (error + AnalysisResult) \<times> 'w"

type_synonym 'w text_model = "insight_prompt \<Rightarrow> 'w \<Rightarrow> (error + json_text) \<times> 'w"

datatype event =
    Progress real string
  | AnalysisCall analysis_request
  | SynthesisCall insight_prompt
  | ConsoleError string

record 'w machine =
  outside :: 'w
  events :: "event list"

definition emit :: "event \<Rightarrow> 'w machine \<Rightarrow> 'w machine" where
  "emit e m = m\<lparr>events := events m @ [e]\<rparr>"

definition call_analysis :: "'w analysis_client \<Rightarrow> analysis_request \<Rightarrow> 'w machine \<Rightarrow> (error + AnalysisResult) \<times> 'w machine" where
  "call_analysis analyze req m =
     (let (outcome, w) = analyze req (outside m)
      in (outcome, \<lparr>outside = w, events = events m @ [AnalysisCall req]\<rparr>))"

definition call_model :: "'w text_model \<Rightarrow> insight_prompt \<Rightarrow> 'w machine \<Rightarrow> (error + json_text) \<times> 'w machine" where
  "call_model generateContent prompt m =
     (let (response, w) = generateContent prompt (outside m)
      in (response, \<lparr>outside = w, events = events m @ [SynthesisCall prompt]\<rparr>))"

subsection \<open>Batch analysis\<close>

text \<open>
  The loop of \<^verbatim>\<open>actionBatchAnalyze\<close> over the files from index \<open>i\<close> on; \<open>len\<close> is
  \<^verbatim>\<open>imageFiles.length\<close>, and \<open>onProgress\<close> tells whether the optional callback was given.
  The progress value \<^verbatim>\<open>(i / imageFiles.length) * 100\<close> is taken in the real numbers.
\<close>

fun batch_loop :: "'w analysis_client \<Rightarrow> nat \<Rightarrow> string \<Rightarrow> string list \<Rightarrow> string \<Rightarrow> BrandVoiceProfile option \<Rightarrow> bool \<Rightarrow> nat \<Rightarrow> File list \<Rightarrow> AnalysisResult list \<Rightarrow> 'w machine \<Rightarrow> AnalysisResult list \<times> 'w machine" where
  "batch_loop analyze len websiteUrl keywords targetAudience brandVoice onProgress i [] results m =
     (results, m)"
| "batch_loop analyze len websiteUrl keywords targetAudience brandVoice onProgress i (file # rest) results m =
     (let m1 = (if onProgress
                then emit (Progress (real i / real len * 100) (file_name file)) m
                else m);
          (outcome, m2) = call_analysis analyze
             \<lparr>req_imageFile = file, req_websiteUrl = websiteUrl, req_keywords = keywords,
              req_targetAudience = targetAudience, req_brandVoice = brandVoice,
              req_generateVariants = True\<rparr> m1
      in case outcome of
           Inr result \<Rightarrow>
             batch_loop analyze len websiteUrl keywords targetAudience brandVoice onProgress
               (Suc i) rest (results @ [result]) m2
         | Inl e \<Rightarrow>
             batch_loop analyze len websiteUrl keywords targetAudience brandVoice onProgress
               (Suc i) rest results
               (emit (ConsoleError (''Failed to analyze '' @ file_name file @ '':'')) m2))"

definition actionBatchAnalyze :: "'w analysis_client \<Rightarrow> File list \<Rightarrow> string \<Rightarrow> string list \<Rightarrow> string \<Rightarrow> BrandVoiceProfile option \<Rightarrow> bool \<Rightarrow> 'w machine \<Rightarrow> AnalysisResult list \<times> 'w machine" where
  "actionBatchAnalyze analyze imageFiles websiteUrl keywords targetAudience brandVoice onProgress m =
     (let (results, m1) = batch_loop analyze (length imageFiles) websiteUrl keywords targetAudience
            brandVoice onProgress 0 imageFiles [] m;
          m2 = (if onProgress then emit (Progress 100 ''Completed'') m1 else m1)
      in (results, m2))"

text \<open>
  The vocabulary of the properties: the client called on a list of requests, once per
  request and one call after the other, with the outcomes in order and the world it
  leaves; the results among outcomes; and the request the batch makes for a file.
\<close>

fun run_calls :: "'w analysis_client \<Rightarrow> analysis_request list \<Rightarrow> 'w \<Rightarrow> (error + AnalysisResult) list \<times> 'w" where
  "run_calls analyze [] w = ([], w)"
| "run_calls analyze (r # rs) w =
     (let (out, w1) = analyze r w;
          (outs, w2) = run_calls analyze rs w1
      in (out # outs, w2))"

fun successes :: "(error + 'a) list \<Rightarrow> 'a list" where
  "successes [] = []"
| "successes (Inr r # outs) = r # successes outs"
| "successes (Inl e # outs) = successes outs"

definition batch_request :: "string \<Rightarrow> string list \<Rightarrow> string \<Rightarrow> BrandVoiceProfile option \<Rightarrow> File \<Rightarrow> analysis_request" where
  "batch_request websiteUrl keywords targetAudience brandVoice file =
     \<lparr>req_imageFile = file, req_websiteUrl = websiteUrl, req_keywords = keywords,
      req_targetAudience = targetAudience, req_brandVoice = brandVoice, req_generateVariants = True\<rparr>"

text \<open>
  What the batch does for the file at index \<open>i\<close> of \<open>len\<close>, given the outcome of its
  analysis: the progress report, then the call, then the console line if the call failed.
\<close>

definition batch_item_events :: "bool \<Rightarrow> nat \<Rightarrow> (File \<Rightarrow> analysis_request) \<Rightarrow> nat \<times> File \<times> (error + AnalysisResult) \<Rightarrow> event list" where
  "batch_item_events onProgress len request item = (case item of (i, file, out) \<Rightarrow>
     (if onProgress then [Progress (real i / real len * 100) (file_name file)] else [])
     @ [AnalysisCall (request file)]
     @ (case out of
          Inl e \<Rightarrow> [ConsoleError (''Failed to analyze '' @ file_name file @ '':'')]
        | Inr r \<Rightarrow> []))"

text \<open>Three files and a client that fails on the second and counts its calls.\<close>

definition sample_result :: "string \<Rightarrow> AnalysisResult" where
  "sample_result url = \<lparr>sections = [], overallSeoScore = 50, recommendations = [],
     pageType = ''landing'', imageUrl = url\<rparr>"

definition file_a :: File where
  "file_a = \<lparr>file_name = ''a.png'', file_content = ''A''\<rparr>"

definition file_b :: File where
  "file_b = \<lparr>file_name = ''b.png'', file_content = ''B''\<rparr>"

definition file_c :: File where
  "file_c = \<lparr>file_name = ''c.png'', file_content = ''C''\<rparr>"

definition sample_files :: "File list" where
  "sample_files = [file_a, file_b, file_c]"

definition sample_client :: "nat analysis_client" where
  "sample_client req calls =
     (if file_name (req_imageFile req) = ''b.png'' then Inl (Error ''quota'')
      else Inr (sample_result (file_name (req_imageFile req))), Suc calls)"

subsection \<open>Competitor comparison\<close>

record comparison_result =
  yourAnalysis :: AnalysisResult
  competitorAnalyses :: "AnalysisResult list"
  insights :: json

text \<open>
  The prompt of \<^verbatim>\<open>generateCompetitiveInsights\<close>, by the values it interpolates. The
  parameter \<^verbatim>\<open>keywords\<close> of the function does not occur in it.
\<close>

definition insight_prompt_of :: "AnalysisResult \<Rightarrow> AnalysisResult list \<Rightarrow> insight_prompt" where
  "insight_prompt_of your competitors =
     \<lparr>your_score = overallSeoScore your,
      your_section_types = map section_type (sections your),
      your_keywords = concat (map section_keywords (sections your)),
      competitor_summaries = map (\<lambda>comp. (overallSeoScore comp, map section_type (sections comp))) competitors\<rparr>"

text \<open>
  \<^verbatim>\<open>generateCompetitiveInsights\<close>: a failure of the model call (a response without text
  counts as one), a response text that does not parse, and a response that parses to
  \<^verbatim>\<open>null\<close> (reading \<^verbatim>\<open>insights.insights\<close> then throws) are caught, logged and answered
  by the empty list. Otherwise the result is \<^verbatim>\<open>insights.insights || []\<close>.
\<close>

definition generateCompetitiveInsights :: "'w text_model \<Rightarrow> AnalysisResult \<Rightarrow> AnalysisResult list \<Rightarrow> string list \<Rightarrow> 'w machine \<Rightarrow> json \<times> 'w machine" where
  "generateCompetitiveInsights generateContent your competitors keywords m =
     (let (response, m1) = call_model generateContent (insight_prompt_of your competitors) m;
          caught = (JArr [], emit (ConsoleError ''Failed to generate competitive insights:'') m1)
      in case response of
           Inl e \<Rightarrow> caught
         | Inr EmptyText \<Rightarrow> caught
         | Inr Unparsable \<Rightarrow> caught
         | Inr (Parses parsed) \<Rightarrow>
             (case get_prop parsed ''insights'' of
                None \<Rightarrow> caught
              | Some None \<Rightarrow> (JArr [], m1)
              | Some (Some v) \<Rightarrow> (if truthy v then v else JArr [], m1)))"

text \<open>
  The loop over the competitor screenshots. A failed analysis is not caught here: it
  ends the loop, and the comparison, with the failure.
\<close>

fun competitor_loop :: "'w analysis_client \<Rightarrow> string list \<Rightarrow> string \<Rightarrow> File list \<Rightarrow> AnalysisResult list \<Rightarrow> 'w machine \<Rightarrow> (error + AnalysisResult list) \<times> 'w machine" where
  "competitor_loop analyze keywords targetAudience [] analyses m = (Inr analyses, m)"
| "competitor_loop analyze keywords targetAudience (competitorFile # rest) analyses m =
     (let (outcome, m1) = call_analysis analyze
             \<lparr>req_imageFile = competitorFile, req_websiteUrl = ''Competitor'',
              req_keywords = keywords, req_targetAudience = targetAudience,
              req_brandVoice = None, req_generateVariants = False\<rparr> m
      in case outcome of
           Inl e \<Rightarrow> (Inl e, m1)
         | Inr analysis \<Rightarrow>
             competitor_loop analyze keywords targetAudience rest (analyses @ [analysis]) m1)"

definition actionCompetitorComparison :: "'w analysis_client \<Rightarrow> 'w text_model \<Rightarrow> File \<Rightarrow> File list \<Rightarrow> string \<Rightarrow> string list \<Rightarrow> string \<Rightarrow> 'w machine \<Rightarrow> (error + comparison_result) \<times> 'w machine" where
  "actionCompetitorComparison analyze generateContent yourScreenshot competitorScreenshots
       websiteUrl keywords targetAudience m =
     (let (first, m1) = call_analysis analyze
             \<lparr>req_imageFile = yourScreenshot, req_websiteUrl = websiteUrl,
              req_keywords = keywords, req_targetAudience = targetAudience,
              req_brandVoice = None, req_generateVariants = True\<rparr> m
      in case first of
           Inl e \<Rightarrow> (Inl e, m1)
         | Inr your \<Rightarrow>
             (let (looped, m2) = competitor_loop analyze keywords targetAudience
                     competitorScreenshots [] m1
              in case looped of
                   Inl e \<Rightarrow> (Inl e, m2)
                 | Inr competitors \<Rightarrow>
                     (let (found, m3) = generateCompetitiveInsights generateContent your
                             competitors keywords m2
                      in (Inr \<lparr>yourAnalysis = your, competitorAnalyses = competitors,
                               insights = found\<rparr>, m3))))"

text \<open>
  The request the comparison is to make for a competitor screenshot, and the calls of
  the analysis client among recorded events.
\<close>

definition competitor_request :: "string list \<Rightarrow> string \<Rightarrow> File \<Rightarrow> analysis_request" where
  "competitor_request keywords targetAudience competitorFile =
     \<lparr>req_imageFile = competitorFile, req_websiteUrl = ''Competitor'', req_keywords = keywords,
      req_targetAudience = targetAudience, req_brandVoice = None, req_generateVariants = False\<rparr>"

fun analysis_calls :: "event list \<Rightarrow> analysis_request list" where
  "analysis_calls [] = []"
| "analysis_calls (AnalysisCall req # es) = req # analysis_calls es"
| "analysis_calls (e # es) = analysis_calls es"

text \<open>
  A client that succeeds on every request and a text model that fails on every prompt,
  both counting their calls.
\<close>

definition steady_client :: "nat analysis_client" where
  "steady_client req calls = (Inr (sample_result (file_name (req_imageFile req))), Suc calls)"

definition failing_model :: "nat text_model" where
  "failing_model prompt calls = (Inl (Error ''unavailable''), Suc calls)"

section \<open>Verified properties\<close>

subsection \<open>Serialization\<close>

lemma concat_singletons:
  "(\<And>x. x \<in> set xs \<Longrightarrow> f x = [g x]) \<Longrightarrow> concat (map f xs) = map g xs"
  by (induction xs) simp_all

lemma to_json_of_json: "to_json (of_json j) = Some j"
proof (induction j rule: of_json.induct)
  case (5 xs)
  have "map (\<lambda>x. case to_json x of None \<Rightarrow> JNull | Some j \<Rightarrow> j) (map of_json xs) = map (\<lambda>x. x) xs"
    unfolding map_map by (rule map_cong) (simp_all add: 5)
  then show ?case by simp
next
  case (6 kvs)
  have "concat (map (\<lambda>kv. case to_json (snd kv) of None \<Rightarrow> [] | Some j \<Rightarrow> [(fst kv, j)])
          (map (\<lambda>kv. (fst kv, of_json (snd kv))) kvs)) = map (\<lambda>kv. kv) kvs"
    unfolding map_map by (rule concat_singletons) (simp add: 6)
  then show ?case by simp
qed simp_all

lemma stored_form_of_json: "stored_form (of_json j) = j"
  by (simp add: stored_form_def to_json_of_json)





subsection \<open>The analysis history\<close>










subsection \<open>User preferences\<close>



















subsection \<open>Import\<close>







subsection \<open>Comparison of two analyses\<close>

lemma keys_update:
  "map fst (AList.update k v al) = (if k \<in> set (map fst al) then map fst al else map fst al @ [k])"
  by (induction al) auto

lemma new_Map_keys: "map fst (new_Map (map (\<lambda>s. (section_id s, s)) ss)) = ids_in_order ss"
  by (induction ss rule: rev_induct)
     (auto simp: keys_update ids_in_order_def new_Map_def map_set_def)

lemma new_Map_lookup:
  "map_of (new_Map (map (\<lambda>s. (section_id s, s)) ss)) i =
     (if has_id ss i then Some (section_with_id ss i) else None)"
  by (induction ss rule: rev_induct)
     (auto simp: update_conv' has_id_def section_with_id_def new_Map_def map_set_def)

lemma alist_by_keys:
  "distinct (map fst m) \<Longrightarrow> m = map (\<lambda>k. (k, the (map_of m k))) (map fst m)"
proof (induction m)
  case Nil
  show ?case by simp
next
  case (Cons e m)
  obtain k v where e: "e = (k, v)" by (cases e)
  from Cons.prems have fresh: "k \<notin> set (map fst m)" and d: "distinct (map fst m)"
    by (auto simp: e)
  have "map (\<lambda>k'. (k', the (map_of ((k, v) # m) k'))) (map fst m)
      = map (\<lambda>k'. (k', the (map_of m k'))) (map fst m)"
    using fresh by (intro map_cong) auto
  with Cons.IH [OF d] show ?case by (simp add: e)
qed

lemma set_ids_in_order: "set (ids_in_order ss) = set (map section_id ss)"
  by (simp add: ids_in_order_def)

lemma new_Map_sections:
  "new_Map (map (\<lambda>s. (section_id s, s)) ss) = map (\<lambda>i. (i, section_with_id ss i)) (ids_in_order ss)"
proof -
  let ?m = "new_Map (map (\<lambda>s. (section_id s, s)) ss)"
  have "distinct (map fst ?m)"
    by (simp add: new_Map_keys ids_in_order_def)
  then have "?m = map (\<lambda>k. (k, the (map_of ?m k))) (map fst ?m)"
    by (rule alist_by_keys)
  also have "\<dots> = map (\<lambda>k. (k, the (map_of ?m k))) (ids_in_order ss)"
    by (simp only: new_Map_keys)
  also have "\<dots> = map (\<lambda>i. (i, section_with_id ss i)) (ids_in_order ss)"
    by (intro map_cong) (auto simp: new_Map_lookup set_ids_in_order has_id_def)
  finally show ?thesis .
qed

lemma map_filter_cong:
  assumes "\<And>x. x \<in> set xs \<Longrightarrow> P x = Q x"
    and "\<And>x. x \<in> set xs \<Longrightarrow> Q x \<Longrightarrow> f x = g x"
  shows "map f (filter P xs) = map g (filter Q xs)"
proof -
  have "filter P xs = filter Q xs"
    using assms(1) by (intro filter_cong) auto
  then show ?thesis
    using assms(2) by (auto intro: map_cong)
qed

lemma forEach_push:
  "forEach (map (\<lambda>i. (i, f i)) is) (\<lambda>v k acc. if P k then acc @ [g v] else acc) acc
     = acc @ map (\<lambda>i. g (f i)) (filter P is)"
  unfolding forEach_def by (induction "is" arbitrary: acc) auto

lemma forEach_removed:
  "removed (forEach (map (\<lambda>i. (i, f i)) is)
      (\<lambda>s1 k acc. case look k of
           None \<Rightarrow> acc\<lparr>removed := removed acc @ [g s1]\<rparr>
         | Some s2 \<Rightarrow> if up s1 s2 then acc\<lparr>improved := improved acc @ [h s2]\<rparr>
             else if down s1 s2 then acc\<lparr>declined := declined acc @ [h s2]\<rparr> else acc) acc)
     = removed acc @ map (\<lambda>i. g (f i)) (filter (\<lambda>i. look i = None) is)"
  unfolding forEach_def by (induction "is" arbitrary: acc) (auto split: option.splits)

lemma forEach_improved:
  "improved (forEach (map (\<lambda>i. (i, f i)) is)
      (\<lambda>s1 k acc. case look k of
           None \<Rightarrow> acc\<lparr>removed := removed acc @ [g s1]\<rparr>
         | Some s2 \<Rightarrow> if up s1 s2 then acc\<lparr>improved := improved acc @ [h s2]\<rparr>
             else if down s1 s2 then acc\<lparr>declined := declined acc @ [h s2]\<rparr> else acc) acc)
     = improved acc @ map (\<lambda>i. h (the (look i)))
         (filter (\<lambda>i. look i \<noteq> None \<and> up (f i) (the (look i))) is)"
  unfolding forEach_def by (induction "is" arbitrary: acc) (auto split: option.splits)

lemma forEach_declined:
  "declined (forEach (map (\<lambda>i. (i, f i)) is)
      (\<lambda>s1 k acc. case look k of
           None \<Rightarrow> acc\<lparr>removed := removed acc @ [g s1]\<rparr>
         | Some s2 \<Rightarrow> if up s1 s2 then acc\<lparr>improved := improved acc @ [h s2]\<rparr>
             else if down s1 s2 then acc\<lparr>declined := declined acc @ [h s2]\<rparr> else acc) acc)
     = declined acc @ map (\<lambda>i. h (the (look i)))
         (filter (\<lambda>i. look i \<noteq> None \<and> \<not> up (f i) (the (look i)) \<and> down (f i) (the (look i))) is)"
  unfolding forEach_def by (induction "is" arbitrary: acc) (auto split: option.splits)

text \<open>
  When the ids of a list are distinct (the result type asks the producer for that), the
  ids in order are the ids of the sections as listed, and the section a list has for the
  id of one of its sections is that section.
\<close>

lemma distinct_ids_reading:
  assumes "distinct (map section_id ss)"
  shows "ids_in_order ss = map section_id ss"
    and "s \<in> set ss \<Longrightarrow> section_with_id ss (section_id s) = s"
proof -
  show "ids_in_order ss = map section_id ss"
    using assms by (simp add: ids_in_order_def distinct_remdups_id)
  show "section_with_id ss (section_id s) = s" if "s \<in> set ss"
    using assms that
  proof (induction ss)
    case Nil
    then show ?case by simp
  next
    case (Cons a ss)
    show ?case
    proof (cases "s = a")
      case True
      from Cons.prems(1) have "section_id a \<notin> section_id ` set ss"
        by simp
      then have "\<forall>t \<in> set ss. section_id t \<noteq> section_id a"
        by (metis image_eqI)
      then have "filter (\<lambda>t. section_id t = section_id a) ss = []"
        by (simp add: filter_empty_conv)
      then show ?thesis by (simp add: section_with_id_def True)
    next
      case False
      with Cons.prems have in_ss: "s \<in> set ss" and d: "distinct (map section_id ss)"
        and ne: "section_id a \<noteq> section_id s"
        by auto
      from Cons.IH [OF d in_ss] have "section_with_id ss (section_id s) = s" .
      moreover have "filter (\<lambda>t. section_id t = section_id s) ss \<noteq> []"
        using in_ss by (auto simp: filter_empty_conv)
      ultimately show ?thesis using ne by (simp add: section_with_id_def)
    qed
  qed
qed

text \<open>
  C2. For every pair of analysis results \<open>a\<close> and \<open>b\<close>, \<^verbatim>\<open>compareAnalyses(a, b)\<close> returns
  as \<^verbatim>\<open>seoScoreDelta\<close> the overall score of \<open>b\<close> minus that of \<open>a\<close>, and
  \<^verbatim>\<open>overallImprovement\<close> is true exactly when the delta is positive. Sections are matched
  by id: the ids only \<open>b\<close> has are reported as added and the ids only \<open>a\<close> has as removed;
  an id both have is reported as improved when its section in \<open>b\<close> scores strictly higher
  than its section in \<open>a\<close>, as declined when strictly lower, and in neither list when
  the scores are equal. Each list holds the labels of the sections concerned (of \<open>b\<close>'s
  section for added, improved and declined, of \<open>a\<close>'s for removed), in the order in which
  the ids first occur in \<open>b\<close> (added) or in \<open>a\<close> (the other three).
\<close>

theorem compareAnalyses_classifies_by_id:
  "seoScoreDelta (compareAnalyses a b) = overallSeoScore b - overallSeoScore a
   \<and> overallImprovement (compareAnalyses a b) = (0 < overallSeoScore b - overallSeoScore a)
   \<and> sectionsAdded (compareAnalyses a b) =
        map (\<lambda>i. label (section_with_id (sections b) i))
          (filter (\<lambda>i. \<not> has_id (sections a) i) (ids_in_order (sections b)))
   \<and> sectionsRemoved (compareAnalyses a b) =
        map (\<lambda>i. label (section_with_id (sections a) i))
          (filter (\<lambda>i. \<not> has_id (sections b) i) (ids_in_order (sections a)))
   \<and> sectionsImproved (compareAnalyses a b) =
        map (\<lambda>i. label (section_with_id (sections b) i))
          (filter (\<lambda>i. has_id (sections b) i
               \<and> seoScore (section_with_id (sections a) i) < seoScore (section_with_id (sections b) i))
             (ids_in_order (sections a)))
   \<and> sectionsDeclined (compareAnalyses a b) =
        map (\<lambda>i. label (section_with_id (sections b) i))
          (filter (\<lambda>i. has_id (sections b) i
               \<and> seoScore (section_with_id (sections b) i) < seoScore (section_with_id (sections a) i))
             (ids_in_order (sections a)))"
proof -
  let ?look1 = "\<lambda>i. if has_id (sections a) i then Some (section_with_id (sections a) i) else None"
  let ?look2 = "\<lambda>i. if has_id (sections b) i then Some (section_with_id (sections b) i) else None"
  have has1: "map_has (new_Map (map (\<lambda>s. (section_id s, s)) (sections a))) = has_id (sections a)"
    by (rule ext) (simp add: map_has_def new_Map_lookup)
  have get2: "map_get (new_Map (map (\<lambda>s. (section_id s, s)) (sections b))) = ?look2"
    by (rule ext) (simp add: map_get_def new_Map_lookup)
  have delta: "seoScoreDelta (compareAnalyses a b) = overallSeoScore b - overallSeoScore a"
    and overall: "overallImprovement (compareAnalyses a b) = (0 < overallSeoScore b - overallSeoScore a)"
    by (simp_all add: compareAnalyses_def Let_def)
  have added: "sectionsAdded (compareAnalyses a b) =
      map (\<lambda>i. label (section_with_id (sections b) i))
        (filter (\<lambda>i. \<not> has_id (sections a) i) (ids_in_order (sections b)))"
    by (simp add: compareAnalyses_def Let_def new_Map_sections [of "sections b"] has1 forEach_push)
  have removed: "sectionsRemoved (compareAnalyses a b) =
      map (\<lambda>i. label (section_with_id (sections a) i))
        (filter (\<lambda>i. \<not> has_id (sections b) i) (ids_in_order (sections a)))"
    by (simp add: compareAnalyses_def Let_def new_Map_sections [of "sections a"] get2
          forEach_removed [where look = ?look2])
  have improved: "sectionsImproved (compareAnalyses a b) =
      map (\<lambda>i. label (section_with_id (sections b) i))
        (filter (\<lambda>i. has_id (sections b) i
             \<and> seoScore (section_with_id (sections a) i) < seoScore (section_with_id (sections b) i))
           (ids_in_order (sections a)))"
  proof -
    have "sectionsImproved (compareAnalyses a b) =
        map (\<lambda>i. label (the (?look2 i)))
          (filter (\<lambda>i. ?look2 i \<noteq> None
               \<and> seoScore (section_with_id (sections a) i) < seoScore (the (?look2 i)))
             (ids_in_order (sections a)))"
      by (simp add: compareAnalyses_def Let_def new_Map_sections [of "sections a"] get2
            forEach_improved [where look = ?look2])
    also have "\<dots> = map (\<lambda>i. label (section_with_id (sections b) i))
        (filter (\<lambda>i. has_id (sections b) i
             \<and> seoScore (section_with_id (sections a) i) < seoScore (section_with_id (sections b) i))
           (ids_in_order (sections a)))"
      by (rule map_filter_cong) auto
    finally show ?thesis .
  qed
  have declined: "sectionsDeclined (compareAnalyses a b) =
      map (\<lambda>i. label (section_with_id (sections b) i))
        (filter (\<lambda>i. has_id (sections b) i
             \<and> seoScore (section_with_id (sections b) i) < seoScore (section_with_id (sections a) i))
           (ids_in_order (sections a)))"
  proof -
    have "sectionsDeclined (compareAnalyses a b) =
        map (\<lambda>i. label (the (?look2 i)))
          (filter (\<lambda>i. ?look2 i \<noteq> None
               \<and> \<not> seoScore (section_with_id (sections a) i) < seoScore (the (?look2 i))
               \<and> seoScore (the (?look2 i)) < seoScore (section_with_id (sections a) i))
             (ids_in_order (sections a)))"
      by (simp add: compareAnalyses_def Let_def new_Map_sections [of "sections a"] get2
            forEach_declined [where look = ?look2])
    also have "\<dots> = map (\<lambda>i. label (section_with_id (sections b) i))
        (filter (\<lambda>i. has_id (sections b) i
             \<and> seoScore (section_with_id (sections b) i) < seoScore (section_with_id (sections a) i))
           (ids_in_order (sections a)))"
      by (rule map_filter_cong) auto
    finally show ?thesis .
  qed
  from delta overall added removed improved declined show ?thesis by blast
qed

text \<open>
  The theorem at two results that share the sections \<open>A\<close> (from 50 to 70), \<open>B\<close> (from 80
  to 60) and \<open>E\<close> (30 in both), with \<open>C\<close> only in the first and \<open>D\<close> only in the second.
\<close>

theorem compareAnalyses_classifies_by_id_witness:
  "seoScoreDelta (compareAnalyses before_result after_result) = 5
   \<and> overallImprovement (compareAnalyses before_result after_result)
   \<and> sectionsAdded (compareAnalyses before_result after_result) = [''New banner'']
   \<and> sectionsRemoved (compareAnalyses before_result after_result) = [''Old banner'']
   \<and> sectionsImproved (compareAnalyses before_result after_result) = [''Hero'']
   \<and> sectionsDeclined (compareAnalyses before_result after_result) = [''Signup'']"
proof -
  have ids: "ids_in_order (sections before_result) = [''A'', ''B'', ''C'', ''E'']"
      "ids_in_order (sections after_result) = [''A'', ''B'', ''D'', ''E'']"
    by (simp_all add: ids_in_order_def before_result_def after_result_def result_of_def section_of_def)
  note t = compareAnalyses_classifies_by_id [of before_result after_result]
  show ?thesis
    unfolding t [THEN conjunct1] t [THEN conjunct2, THEN conjunct1]
      t [THEN conjunct2, THEN conjunct2, THEN conjunct1]
      t [THEN conjunct2, THEN conjunct2, THEN conjunct2, THEN conjunct1]
      t [THEN conjunct2, THEN conjunct2, THEN conjunct2, THEN conjunct2, THEN conjunct1]
      t [THEN conjunct2, THEN conjunct2, THEN conjunct2, THEN conjunct2, THEN conjunct2]
      ids
    by (simp add: has_id_def section_with_id_def before_result_def after_result_def
          result_of_def section_of_def)
qed

subsection \<open>CSV export\<close>

lemma undouble_doubled:
  "undouble (concat (map (\<lambda>ch. if ch = dquote then [dquote, dquote] else [ch]) s)) = Some s"
proof (induction s)
  case Nil
  show ?case by simp
next
  case (Cons c s)
  show ?case
  proof (cases "c = dquote")
    case True
    with Cons.IH show ?thesis by simp
  next
    case False
    let ?rest = "concat (map (\<lambda>ch. if ch = dquote then [dquote, dquote] else [ch]) s)"
    from False Cons.IH show ?thesis
      by (cases ?rest) simp_all
  qed
qed

lemma csv_unquote_quoted: "csv_unquote (csv_quoted s) = Some s"
  by (simp add: csv_unquote_def csv_quoted_def undouble_doubled)

text \<open>
  C7, as the claim words it (keywords joined by semicolons), fails on a section with
  more than one keyword: the code joins them with a semicolon and a space.
\<close>

theorem exportToCSV_semicolon_counterexample:
  "exportToCSV csv_example \<noteq> csv_as_specified csv_example"
  by (simp add: exportToCSV_def csv_as_specified_def csv_example_def csv_row_with_def
        csv_header_def csv_quoted_def replace_all_def)

text \<open>
  C7, amended. For every analysis result, \<^verbatim>\<open>exportToCSV\<close> produces the header row
  followed by one row per section, in the order of the sections, the rows separated by
  line feeds; the fields of a row, separated by commas, are the label, the type, the SEO
  score, the keywords joined by a semicolon followed by a space, the character count,
  and the suggested content wrapped in double quotes with every double quote in it
  doubled, so that the content is read back from the field unchanged.
\<close>

theorem exportToCSV_rows:
  "exportToCSV analysis = join [newline] (csv_header # map (csv_row_with ''; '') (sections analysis))
   \<and> length (csv_header # map (csv_row_with ''; '') (sections analysis)) = 1 + length (sections analysis)
   \<and> csv_unquote (csv_quoted (suggestedContent s)) = Some (suggestedContent s)"
proof -
  have "exportToCSV analysis = join [newline] (csv_header # map (csv_row_with ''; '') (sections analysis))"
    by (simp add: exportToCSV_def csv_header_def csv_row_with_def [abs_def] csv_quoted_def
          replace_all_def comp_def)
  then show ?thesis
    by (simp add: csv_unquote_quoted)
qed

text \<open>
  The theorem at a result with one section, two keywords and a quotation in the
  content: the text exported, character by character.
\<close>

theorem exportToCSV_rows_witness:
  "exportToCSV csv_example =
     ''Section,Type,SEO Score,Keywords,Character Count,Content'' @ [newline]
       @ ''Hero,hero,70,seo; web,7,'' @ [dquote] @ ''Go '' @ [dquote, dquote] @ ''up''
       @ [dquote, dquote] @ [dquote]"
proof -
  have "exportToCSV csv_example
      = join [newline] (csv_header # map (csv_row_with ''; '') (sections csv_example))"
    by (rule exportToCSV_rows [THEN conjunct1])
  also have "\<dots> = ''Section,Type,SEO Score,Keywords,Character Count,Content'' @ [newline]
       @ ''Hero,hero,70,seo; web,7,'' @ [dquote] @ ''Go '' @ [dquote, dquote] @ ''up''
       @ [dquote, dquote] @ [dquote]"
    by (simp add: csv_example_def csv_header_def csv_row_with_def csv_quoted_def show_int_def
          show_nat.simps digit_char_def dquote_def)
  finally show ?thesis .
qed

subsection \<open>Keyboard shortcuts\<close>

lemma scan_shortcuts_first_match:
  "scan_shortcuts shortcuts event = invoke_first (chord_match event) shortcuts"
proof (induction shortcuts)
  case Nil
  show ?case by (simp add: invoke_first_def)
next
  case (Cons s rest)
  show ?case
  proof (cases "chord_match event s")
    case True
    then show ?thesis
      by (auto simp: invoke_first_def chord_match_def Let_def)
  next
    case False
    then have "scan_shortcuts (s # rest) event = scan_shortcuts rest event"
      by (auto simp: chord_match_def Let_def)
    with False Cons.IH show ?thesis
      by (simp add: invoke_first_def)
  qed
qed

text \<open>
  C3, as the claim words it (exact agreement on every modifier flag), fails: with the
  meta key down and the control key up, the entry for control and K is invoked, though
  its control flag is set and the event's is not, and its meta flag is unspecified and
  the event's is set.
\<close>

theorem dispatcher_exact_match_counterexample:
  "handleKeyDown [search_shortcut, prevSection_shortcut] True (key_event ''k'' False True ''BODY'')
     = [PreventDefault, Invoke ''search'']
   \<and> invoke_first (exact_match (key_event ''k'' False True ''BODY'')) [search_shortcut, prevSection_shortcut]
     = []"
  by (simp add: handleKeyDown_def invoke_first_def exact_match_def search_shortcut_def
        prevSection_shortcut_def key_event_def flag_def toLowerCase_def Let_def)

text \<open>
  C3, amended. For every key event that does not target a text-entry control and every
  shortcut list, the enabled dispatcher scans the list in declaration order and invokes
  exactly the first entry whose chord matches, where a match requires the keys to be equal
  up to case, the entry's control flag to agree with the event having the control key or
  the meta key down, and the entry's alt and shift flags to agree with the event's: a
  flag left unspecified in the entry requires the keys it stands for to be up. The
  entry's meta flag is not consulted.
\<close>

theorem dispatcher_first_chord_match:
  "enabled \<Longrightarrow> \<not> text_entry_control (target event) \<Longrightarrow>
   handleKeyDown shortcuts enabled event = invoke_first (chord_match event) shortcuts"
  by (simp add: handleKeyDown_def text_entry_control_def scan_shortcuts_first_match)

text \<open>
  The theorem on the page body: control and K invokes the search entry, the first of
  the two entries on K; plain K passes it over and invokes the second.
\<close>

theorem dispatcher_first_chord_match_witness:
  "\<not> text_entry_control (target (key_event ''K'' True False ''BODY''))
   \<and> handleKeyDown [search_shortcut, prevSection_shortcut] True (key_event ''K'' True False ''BODY'')
       = [PreventDefault, Invoke ''search'']
   \<and> handleKeyDown [search_shortcut, prevSection_shortcut] True (key_event ''k'' False False ''BODY'')
       = [PreventDefault, Invoke ''prevSection'']"
proof -
  let ?tab = "[search_shortcut, prevSection_shortcut]"
  have body: "\<not> text_entry_control (target (key_event k c m ''BODY''))" for k c m
    by (simp add: text_entry_control_def key_event_def)
  have 1: "handleKeyDown ?tab True (key_event ''K'' True False ''BODY'')
      = invoke_first (chord_match (key_event ''K'' True False ''BODY'')) ?tab"
    using dispatcher_first_chord_match [of True "key_event ''K'' True False ''BODY''" ?tab] body
    by blast
  have 2: "handleKeyDown ?tab True (key_event ''k'' False False ''BODY'')
      = invoke_first (chord_match (key_event ''k'' False False ''BODY'')) ?tab"
    using dispatcher_first_chord_match [of True "key_event ''k'' False False ''BODY''" ?tab] body
    by blast
  have e1: "invoke_first (chord_match (key_event ''K'' True False ''BODY'')) ?tab
      = [PreventDefault, Invoke ''search'']"
    by (simp add: invoke_first_def chord_match_def search_shortcut_def prevSection_shortcut_def
          key_event_def flag_def toLowerCase_def lower_char_def)
  have e2: "invoke_first (chord_match (key_event ''k'' False False ''BODY'')) ?tab
      = [PreventDefault, Invoke ''prevSection'']"
    by (simp add: invoke_first_def chord_match_def search_shortcut_def prevSection_shortcut_def
          key_event_def flag_def toLowerCase_def lower_char_def)
  show ?thesis
    using body by (simp add: 1 2 e1 e2)
qed

text \<open>
  C9. For every key event whose target is a text-entry control (an input, a textarea
  or a content-editable element), the dispatcher invokes no action and has no other
  effect, whatever the shortcut list, the enabled flag, and the key and modifiers of the
  event.
\<close>

theorem text_entry_suppresses_shortcuts:
  "text_entry_control (target event) \<Longrightarrow> handleKeyDown shortcuts enabled event = []"
  by (simp add: handleKeyDown_def text_entry_control_def)

text \<open>
  The theorem in an input field, at a chord that invokes the search entry on the page
  body.
\<close>

theorem text_entry_suppresses_shortcuts_witness:
  "text_entry_control (target (key_event ''k'' True False ''INPUT''))
   \<and> handleKeyDown [search_shortcut, prevSection_shortcut] True (key_event ''k'' True False ''INPUT'') = []
   \<and> scan_shortcuts [search_shortcut, prevSection_shortcut] (key_event ''k'' True False ''INPUT'')
       = [PreventDefault, Invoke ''search'']"
proof -
  have t: "text_entry_control (target (key_event ''k'' True False ''INPUT''))"
    by (simp add: text_entry_control_def key_event_def)
  from text_entry_suppresses_shortcuts [OF t]
  have "handleKeyDown [search_shortcut, prevSection_shortcut] True (key_event ''k'' True False ''INPUT'') = []" .
  moreover have "scan_shortcuts [search_shortcut, prevSection_shortcut] (key_event ''k'' True False ''INPUT'')
      = [PreventDefault, Invoke ''search'']"
    by (simp add: search_shortcut_def prevSection_shortcut_def key_event_def flag_def
          toLowerCase_def Let_def)
  ultimately show ?thesis using t by simp
qed

subsection \<open>Batch analysis\<close>

lemma batch_loop_char:
  "batch_loop analyze len websiteUrl keywords targetAudience brandVoice onProgress i files results m =
     (let request = batch_request websiteUrl keywords targetAudience brandVoice;
          run = run_calls analyze (map request files) (outside m)
      in (results @ successes (fst run),
          \<lparr>outside = snd run,
           events = events m @ concat (map (batch_item_events onProgress len request)
              (zip [i..<i + length files] (zip files (fst run))))\<rparr>))"
proof (induction files arbitrary: i results m)
  case Nil
  show ?case by simp
next
  case (Cons f0 rest)
  let ?request = "batch_request websiteUrl keywords targetAudience brandVoice"
  let ?pre = "if onProgress then [Progress (real i / real len * 100) (file_name f0)] else []"
  let ?fail = "ConsoleError (''Failed to analyze '' @ file_name f0 @ '':'')"
  obtain out w1 where a: "analyze (?request f0) (outside m) = (out, w1)"
    by (cases "analyze (?request f0) (outside m)")
  define m1 where "m1 = (if onProgress
      then emit (Progress (real i / real len * 100) (file_name f0)) m else m)"
  define m2 where "m2 = \<lparr>outside = w1, events = events m @ ?pre @ [AnalysisCall (?request f0)]\<rparr>"
  have m1: "outside m1 = outside m" "events m1 = events m @ ?pre"
    by (simp_all add: m1_def emit_def)
  have call: "call_analysis analyze (?request f0) m1 = (out, m2)"
    using a by (simp add: call_analysis_def m1 m2_def)
  have unfold: "batch_loop analyze len websiteUrl keywords targetAudience brandVoice onProgress i
        (f0 # rest) results m =
      (case out of
         Inr result \<Rightarrow> batch_loop analyze len websiteUrl keywords targetAudience brandVoice
             onProgress (Suc i) rest (results @ [result]) m2
       | Inl e \<Rightarrow> batch_loop analyze len websiteUrl keywords targetAudience brandVoice
             onProgress (Suc i) rest results (emit ?fail m2))"
    using call by (simp add: m1_def batch_request_def)
  have run: "run_calls analyze (map ?request (f0 # rest)) (outside m) =
      (out # fst (run_calls analyze (map ?request rest) w1),
       snd (run_calls analyze (map ?request rest) w1))"
    using a by (simp add: case_prod_beta)
  have upt: "[i..<i + length (f0 # rest)] = i # [Suc i..<Suc i + length rest]"
    using upt_conv_Cons [of i "i + length (f0 # rest)"] by simp
  show ?case
  proof (cases out)
    case (Inl e)
    have "batch_loop analyze len websiteUrl keywords targetAudience brandVoice onProgress i
        (f0 # rest) results m
      = batch_loop analyze len websiteUrl keywords targetAudience brandVoice
             onProgress (Suc i) rest results (emit ?fail m2)"
      by (simp only: unfold Inl sum.case)
    also have "\<dots> = (results @ successes (fst (run_calls analyze (map ?request rest) w1)),
        \<lparr>outside = snd (run_calls analyze (map ?request rest) w1),
         events = events m @ ?pre @ [AnalysisCall (?request f0), ?fail]
           @ concat (map (batch_item_events onProgress len ?request)
              (zip [Suc i..<Suc i + length rest]
                 (zip rest (fst (run_calls analyze (map ?request rest) w1)))))\<rparr>)"
      by (simp only: Cons.IH Let_def) (simp add: emit_def m2_def)
    finally show ?thesis
      unfolding Let_def run upt fst_conv snd_conv
      by (simp add: Inl batch_item_events_def)
  next
    case (Inr r)
    have "batch_loop analyze len websiteUrl keywords targetAudience brandVoice onProgress i
        (f0 # rest) results m
      = batch_loop analyze len websiteUrl keywords targetAudience brandVoice
             onProgress (Suc i) rest (results @ [r]) m2"
      by (simp only: unfold Inr sum.case)
    also have "\<dots> = ((results @ [r]) @ successes (fst (run_calls analyze (map ?request rest) w1)),
        \<lparr>outside = snd (run_calls analyze (map ?request rest) w1),
         events = events m @ ?pre @ [AnalysisCall (?request f0)]
           @ concat (map (batch_item_events onProgress len ?request)
              (zip [Suc i..<Suc i + length rest]
                 (zip rest (fst (run_calls analyze (map ?request rest) w1)))))\<rparr>)"
      by (simp only: Cons.IH Let_def) (simp add: m2_def)
    finally show ?thesis
      unfolding Let_def run upt fst_conv snd_conv
      by (simp add: Inr batch_item_events_def)
  qed
qed

lemma length_run_calls: "length (fst (run_calls analyze reqs w)) = length reqs"
  by (induction reqs arbitrary: w) (simp_all add: case_prod_beta)

lemma length_successes: "length (successes outs) \<le> length outs"
  by (induction outs rule: successes.induct) simp_all

text \<open>
  C4. For every list of images, \<^verbatim>\<open>actionBatchAnalyze\<close> calls the analysis client once
  per image, one call after the other in the order of the list, each call on the world
  the call before left; when a progress callback is given it reports, before the call
  for the image at index \<open>i\<close>, the progress \<open>i / total * 100\<close> with the name of the file;
  a failed call is logged and skipped, so that the results returned are those of the
  calls that succeeded, in order, and may be fewer than the images; and after the loop
  the callback is called with 100, whether or not calls failed. The function returns
  in every case: no failure of the client reaches the caller.
\<close>

theorem batch_analyze_skips_failures:
  "(let request = batch_request websiteUrl keywords targetAudience brandVoice;
        run = run_calls analyze (map request imageFiles) w;
        batch = actionBatchAnalyze analyze imageFiles websiteUrl keywords targetAudience
                  brandVoice onProgress \<lparr>outside = w, events = []\<rparr>
    in fst batch = successes (fst run)
       \<and> length (fst batch) \<le> length imageFiles
       \<and> outside (snd batch) = snd run
       \<and> events (snd batch) =
           concat (map (batch_item_events onProgress (length imageFiles) request)
             (zip [0..<length imageFiles] (zip imageFiles (fst run))))
           @ (if onProgress then [Progress 100 ''Completed''] else []))"
proof -
  let ?request = "batch_request websiteUrl keywords targetAudience brandVoice"
  let ?run = "run_calls analyze (map ?request imageFiles) w"
  have "length (successes (fst ?run)) \<le> length (fst ?run)"
    by (rule length_successes)
  then have "length (successes (fst ?run)) \<le> length imageFiles"
    by (simp add: length_run_calls)
  then show ?thesis
    by (simp add: actionBatchAnalyze_def batch_loop_char Let_def emit_def)
qed

text \<open>
  The theorem at three images of which the second fails: two results are returned, and
  the callback sees 0, 100/3, 200/3 and at last 100.
\<close>

theorem batch_analyze_skips_failures_witness:
  "fst (actionBatchAnalyze sample_client sample_files ''https://example.com'' [''seo''] ''founders''
          None True \<lparr>outside = 0, events = []\<rparr>)
     = [sample_result ''a.png'', sample_result ''c.png'']
   \<and> events (snd (actionBatchAnalyze sample_client sample_files ''https://example.com'' [''seo''] ''founders''
          None True \<lparr>outside = 0, events = []\<rparr>))
     = [Progress 0 ''a.png'',
        AnalysisCall (batch_request ''https://example.com'' [''seo''] ''founders'' None file_a),
        Progress (100 / 3) ''b.png'',
        AnalysisCall (batch_request ''https://example.com'' [''seo''] ''founders'' None file_b),
        ConsoleError ''Failed to analyze b.png:'',
        Progress (200 / 3) ''c.png'',
        AnalysisCall (batch_request ''https://example.com'' [''seo''] ''founders'' None file_c),
        Progress 100 ''Completed'']"
proof -
  let ?request = "batch_request ''https://example.com'' [''seo''] ''founders'' None"
  have run: "run_calls sample_client (map ?request sample_files) 0
      = ([Inr (sample_result ''a.png''), Inl (Error ''quota''), Inr (sample_result ''c.png'')], 3)"
    by (simp add: sample_files_def file_a_def file_b_def file_c_def sample_client_def
          batch_request_def)
  have idx: "[0..<length sample_files] = [0, 1, 2]"
    by (simp add: sample_files_def upt_rec)
  note t = batch_analyze_skips_failures [of "''https://example.com''" "[''seo'']" "''founders''" None
      sample_client sample_files 0 True]
  show ?thesis
    using t unfolding Let_def run idx fst_conv snd_conv
    by (simp add: batch_item_events_def sample_files_def file_a_def file_b_def file_c_def)
qed

subsection \<open>Competitor comparison\<close>

lemma competitor_loop_all_succeed:
  "run_calls analyze (map (competitor_request keywords targetAudience) files) (outside m)
       = (map Inr competitors, w2) \<Longrightarrow>
   competitor_loop analyze keywords targetAudience files analyses m =
     (Inr (analyses @ competitors),
      \<lparr>outside = w2,
       events = events m @ map (\<lambda>f. AnalysisCall (competitor_request keywords targetAudience f)) files\<rparr>)"
proof (induction files arbitrary: analyses m competitors)
  case Nil
  then show ?case by simp
next
  case (Cons f0 rest)
  let ?req = "competitor_request keywords targetAudience"
  obtain out w1 where a: "analyze (?req f0) (outside m) = (out, w1)"
    by (cases "analyze (?req f0) (outside m)")
  from Cons.prems a have outs: "out # fst (run_calls analyze (map ?req rest) w1) = map Inr competitors"
    and w2: "snd (run_calls analyze (map ?req rest) w1) = w2"
    by (simp_all add: case_prod_beta)
  from outs obtain c cs where comp: "competitors = c # cs" and out: "out = Inr c"
    and rest: "fst (run_calls analyze (map ?req rest) w1) = map Inr cs"
    by (cases competitors) auto
  let ?m1 = "\<lparr>outside = w1, events = events m @ [AnalysisCall (?req f0)]\<rparr>"
  have call: "call_analysis analyze (?req f0) m = (Inr c, ?m1)"
    using a out by (simp add: call_analysis_def)
  have run_rest: "run_calls analyze (map ?req rest) (outside ?m1) = (map Inr cs, w2)"
    using rest w2 by (simp add: prod_eq_iff)
  have "competitor_loop analyze keywords targetAudience (f0 # rest) analyses m
      = competitor_loop analyze keywords targetAudience rest (analyses @ [c]) ?m1"
    using call by (simp add: competitor_request_def)
  also have "\<dots> = (Inr ((analyses @ [c]) @ cs),
      \<lparr>outside = w2, events = events ?m1 @ map (\<lambda>f. AnalysisCall (?req f)) rest\<rparr>)"
    by (rule Cons.IH [OF run_rest])
  finally show ?case by (simp add: comp)
qed

lemma analysis_calls_map: "analysis_calls (map (\<lambda>f. AnalysisCall (g f)) fs @ es) = map g fs @ analysis_calls es"
  by (induction fs) simp_all

lemma insights_on_failure:
  assumes "generateContent (insight_prompt_of your competitors) (outside m) = (response, w3)"
    and "response = Inl e \<or> response = Inr Unparsable \<or> response = Inr EmptyText
      \<or> response = Inr (Parses JNull)"
  shows "generateCompetitiveInsights generateContent your competitors keywords m =
     (JArr [], \<lparr>outside = w3, events = events m @
        [SynthesisCall (insight_prompt_of your competitors),
         ConsoleError ''Failed to generate competitive insights:'']\<rparr>)"
  using assms by (auto simp: generateCompetitiveInsights_def call_model_def emit_def get_prop_def)

text \<open>
  C5. In every run of \<^verbatim>\<open>actionCompetitorComparison\<close> in which the analysis of one's own
  page and of every competitor succeeds and the insight synthesis fails (the model call
  fails, or its response is not valid JSON or is \<^verbatim>\<open>null\<close>), the function returns one's own analysis and
  all competitor analyses, with the empty list as insights; the failure does not reach
  the caller. The analysis client is called once for one's own page, with the website
  URL given and variants requested, and then once per competitor image, in order, with
  the website URL replaced by the label \<^verbatim>\<open>Competitor\<close> and no variants requested.
\<close>

theorem competitor_comparison_survives_synthesis_failure:
  "analyze \<lparr>req_imageFile = yourScreenshot, req_websiteUrl = websiteUrl, req_keywords = keywords,
        req_targetAudience = targetAudience, req_brandVoice = None, req_generateVariants = True\<rparr> w
      = (Inr your, w1) \<Longrightarrow>
   run_calls analyze
        (map (\<lambda>f. \<lparr>req_imageFile = f, req_websiteUrl = ''Competitor'', req_keywords = keywords,
             req_targetAudience = targetAudience, req_brandVoice = None,
             req_generateVariants = False\<rparr>) competitorScreenshots) w1
      = (map Inr competitors, w2) \<Longrightarrow>
   generateContent (insight_prompt_of your competitors) w2 = (response, w3) \<Longrightarrow>
   response = Inl e \<or> response = Inr Unparsable \<or> response = Inr EmptyText
     \<or> response = Inr (Parses JNull) \<Longrightarrow>
   fst (actionCompetitorComparison analyze generateContent yourScreenshot competitorScreenshots
          websiteUrl keywords targetAudience \<lparr>outside = w, events = []\<rparr>)
     = Inr \<lparr>yourAnalysis = your, competitorAnalyses = competitors, insights = JArr []\<rparr>
   \<and> analysis_calls (events (snd (actionCompetitorComparison analyze generateContent yourScreenshot
          competitorScreenshots websiteUrl keywords targetAudience \<lparr>outside = w, events = []\<rparr>)))
     = \<lparr>req_imageFile = yourScreenshot, req_websiteUrl = websiteUrl, req_keywords = keywords,
        req_targetAudience = targetAudience, req_brandVoice = None, req_generateVariants = True\<rparr>
       # map (\<lambda>f. \<lparr>req_imageFile = f, req_websiteUrl = ''Competitor'', req_keywords = keywords,
             req_targetAudience = targetAudience, req_brandVoice = None,
             req_generateVariants = False\<rparr>) competitorScreenshots"
proof -
  let ?primary = "\<lparr>req_imageFile = yourScreenshot, req_websiteUrl = websiteUrl,
      req_keywords = keywords, req_targetAudience = targetAudience, req_brandVoice = None,
      req_generateVariants = True\<rparr>"
  let ?req = "competitor_request keywords targetAudience"
  let ?m0 = "\<lparr>outside = w, events = []\<rparr>"
  let ?m1 = "\<lparr>outside = w1, events = [AnalysisCall ?primary]\<rparr>"
  let ?m2 = "\<lparr>outside = w2,
      events = AnalysisCall ?primary # map (\<lambda>f. AnalysisCall (?req f)) competitorScreenshots\<rparr>"
  let ?m3 = "\<lparr>outside = w3,
      events = AnalysisCall ?primary # map (\<lambda>f. AnalysisCall (?req f)) competitorScreenshots
        @ [SynthesisCall (insight_prompt_of your competitors),
           ConsoleError ''Failed to generate competitive insights:'']\<rparr>"
  assume primary: "analyze ?primary w = (Inr your, w1)"
    and comps: "run_calls analyze
        (map (\<lambda>f. \<lparr>req_imageFile = f, req_websiteUrl = ''Competitor'', req_keywords = keywords,
             req_targetAudience = targetAudience, req_brandVoice = None,
             req_generateVariants = False\<rparr>) competitorScreenshots) w1
      = (map Inr competitors, w2)"
    and synth: "generateContent (insight_prompt_of your competitors) w2 = (response, w3)"
    and failed: "response = Inl e \<or> response = Inr Unparsable \<or> response = Inr EmptyText
      \<or> response = Inr (Parses JNull)"
  have req: "(\<lambda>f. \<lparr>req_imageFile = f, req_websiteUrl = ''Competitor'', req_keywords = keywords,
             req_targetAudience = targetAudience, req_brandVoice = None,
             req_generateVariants = False\<rparr>) = ?req"
    by (rule ext) (simp add: competitor_request_def)
  have call: "call_analysis analyze ?primary ?m0 = (Inr your, ?m1)"
    using primary by (simp add: call_analysis_def)
  have loop: "competitor_loop analyze keywords targetAudience competitorScreenshots [] ?m1
      = (Inr competitors, ?m2)"
  proof -
    have "run_calls analyze (map ?req competitorScreenshots) (outside ?m1) = (map Inr competitors, w2)"
      using comps by (simp add: req)
    from competitor_loop_all_succeed [OF this, of "[]"] show ?thesis by simp
  qed
  have ins: "generateCompetitiveInsights generateContent your competitors keywords ?m2
      = (JArr [], ?m3)"
  proof -
    have "generateContent (insight_prompt_of your competitors) (outside ?m2) = (response, w3)"
      using synth by simp
    from insights_on_failure [where generateContent = generateContent and m = ?m2, OF this failed]
    show ?thesis by simp
  qed
  have "actionCompetitorComparison analyze generateContent yourScreenshot competitorScreenshots
          websiteUrl keywords targetAudience ?m0
      = (Inr \<lparr>yourAnalysis = your, competitorAnalyses = competitors, insights = JArr []\<rparr>, ?m3)"
    by (simp add: actionCompetitorComparison_def call loop ins)
  then show ?thesis
    using analysis_calls_map [of "competitor_request keywords targetAudience" competitorScreenshots]
    by (simp add: req)
qed

text \<open>
  The theorem at a run with two competitors in which both clients are reached and the
  text model fails.
\<close>

theorem competitor_comparison_survives_synthesis_failure_witness:
  "fst (actionCompetitorComparison steady_client failing_model file_a
          [file_b, file_c] ''https://example.com'' [''seo''] ''founders''
          \<lparr>outside = 0, events = []\<rparr>)
     = Inr \<lparr>yourAnalysis = sample_result ''a.png'',
            competitorAnalyses = [sample_result ''b.png'', sample_result ''c.png''],
            insights = JArr []\<rparr>
   \<and> map req_websiteUrl (analysis_calls (events (snd (actionCompetitorComparison steady_client
          failing_model file_a [file_b, file_c]
          ''https://example.com'' [''seo''] ''founders'' \<lparr>outside = 0, events = []\<rparr>))))
     = [''https://example.com'', ''Competitor'', ''Competitor'']
   \<and> map req_generateVariants (analysis_calls (events (snd (actionCompetitorComparison steady_client
          failing_model file_a [file_b, file_c]
          ''https://example.com'' [''seo''] ''founders'' \<lparr>outside = 0, events = []\<rparr>))))
     = [True, False, False]"
proof -
  let ?a = file_a and ?b = file_b and ?c = file_c
  have names: "file_name ?a = ''a.png''" "file_name ?b = ''b.png''" "file_name ?c = ''c.png''"
    by (simp_all add: file_a_def file_b_def file_c_def)
  have h1: "steady_client \<lparr>req_imageFile = ?a, req_websiteUrl = ''https://example.com'',
        req_keywords = [''seo''], req_targetAudience = ''founders'', req_brandVoice = None,
        req_generateVariants = True\<rparr> 0 = (Inr (sample_result ''a.png''), 1)"
    by (simp add: steady_client_def names)
  have h2: "run_calls steady_client
        (map (\<lambda>f. \<lparr>req_imageFile = f, req_websiteUrl = ''Competitor'', req_keywords = [''seo''],
             req_targetAudience = ''founders'', req_brandVoice = None,
             req_generateVariants = False\<rparr>) [?b, ?c]) 1
      = (map Inr [sample_result ''b.png'', sample_result ''c.png''], 3)"
    by (simp add: steady_client_def names)
  have h3: "failing_model (insight_prompt_of (sample_result ''a.png'')
        [sample_result ''b.png'', sample_result ''c.png'']) 3 = (Inl (Error ''unavailable''), 4)"
    by (simp add: failing_model_def)
  have h4: "Inl (Error ''unavailable'') = Inl (Error ''unavailable'')
      \<or> (Inl (Error ''unavailable'') :: error + json_text) = Inr Unparsable
      \<or> (Inl (Error ''unavailable'') :: error + json_text) = Inr EmptyText
      \<or> (Inl (Error ''unavailable'') :: error + json_text) = Inr (Parses JNull)"
    by simp
  from competitor_comparison_survives_synthesis_failure
    [where analyze = steady_client and generateContent = failing_model, OF h1 h2 h3 h4]
  show ?thesis by simp
qed

end
